theory Spec2Isabelle
  imports Complex_Main "HOL-Library.Log_Nat" "HOL-Library.Multiset"
begin

section \<open>Python values and built-in conversions\<close>

text \<open>
  A Python \<open>float\<close> is an IEEE binary64 value: a finite number, an infinity or NaN. A finite
  float is represented by the real number it denotes (signed zeros are not told apart).
  Python's \<open>int\<close> is unbounded and is modelled by \<open>int\<close>.
\<close>

datatype pyfloat = Finite real | PosInf | NegInf | NaN

text \<open>
  What \<open>resp.json()\<close> hands to \<open>StatusData.from_json\<close>: the Python value of a JSON text.
  An object is a \<open>dict\<close> with string keys, kept as an association list in insertion order
  and read with \<open>map_of\<close>.
\<close>

datatype jval =
    JNull
  | JBool bool
  | JInt int
  | JFloat pyfloat
  | JStr string
  | JList "jval list"
  | JObj "(string \<times> jval) list"

text \<open>
  The exceptions of the program. Each constructor stands for one exception value; its Python
  class is given by \<open>class_of\<close>. \<open>InvalidStatus e\<close> is the
  \<open>ValueError(f"Invalid status JSON structure: {e}")\<close> that \<open>from_json\<close> raises for the
  cause \<open>e\<close>. \<open>LibError c m\<close> is an exception of class \<open>c\<close> with message \<open>m\<close> raised inside
  aiohttp, asyncio or json (for instance \<open>ClientResponseError\<close> from
  \<open>resp.raise_for_status()\<close>); all of them derive from \<open>Exception\<close>.
\<close>

datatype exn =
    KeyError string
  | BadLiteral string
  | NaNToInt
  | InfToInt
  | TooLargeForFloat
  | WrongType
  | DivisionByZero
  | InvalidStatus exn
  | BadFormatCode
  | CircularReference
  | FileError string
  | LibError string string

datatype exn_class =
    KeyErrorC | ValueErrorC | OverflowErrorC | TypeErrorC | ZeroDivisionErrorC | OSErrorC
  | OtherC string

fun class_of :: "exn \<Rightarrow> exn_class" where
  "class_of (KeyError k) = KeyErrorC"
| "class_of (BadLiteral s) = ValueErrorC"
| "class_of NaNToInt = ValueErrorC"
| "class_of InfToInt = OverflowErrorC"
| "class_of TooLargeForFloat = OverflowErrorC"
| "class_of WrongType = TypeErrorC"
| "class_of DivisionByZero = ZeroDivisionErrorC"
| "class_of (InvalidStatus e) = ValueErrorC"
| "class_of BadFormatCode = ValueErrorC"
| "class_of CircularReference = ValueErrorC"
| "class_of (FileError p) = OSErrorC"
| "class_of (LibError c m) = OtherC c"

subsection \<open>Whitespace and \<open>str.strip()\<close>\<close>

text \<open>
  Text is a list of characters with code points below 256. \<open>str.strip()\<close> and
  \<open>str.isspace()\<close> treat the code points 9 to 13, 28 to 32, 133 and 160 as whitespace.
  \<open>int()\<close> skips the C whitespace 9 to 13 and 32, and 133 and 160, around a number.
\<close>

definition py_isspace :: "char \<Rightarrow> bool" where
  "py_isspace c = (let n = (of_char c :: nat) in
     (9 \<le> n \<and> n \<le> 13) \<or> (28 \<le> n \<and> n \<le> 32) \<or> n = 133 \<or> n = 160)"

definition int_isspace :: "char \<Rightarrow> bool" where
  "int_isspace c = (let n = (of_char c :: nat) in
     (9 \<le> n \<and> n \<le> 13) \<or> n = 32 \<or> n = 133 \<or> n = 160)"

definition strip :: "string \<Rightarrow> string" where
  "strip s = rev (dropWhile py_isspace (rev (dropWhile py_isspace s)))"

definition startswith :: "string \<Rightarrow> string \<Rightarrow> bool" where
  "startswith s p = (take (length p) s = p)"

subsection \<open>\<open>int(x)\<close>\<close>

definition is_digit :: "char \<Rightarrow> bool" where
  "is_digit c = (let n = (of_char c :: nat) in 48 \<le> n \<and> n \<le> 57)"

definition digit_val :: "char \<Rightarrow> nat" where
  "digit_val c = of_char c - 48"

text \<open>
  The digits of a decimal literal: groups of digits separated by single underscores, with no
  underscore first or last. \<open>scan_digits prev acc n cs\<close> reads \<open>cs\<close> after the character
  \<open>prev\<close>, with value \<open>acc\<close> and \<open>n\<close> digits read so far, and returns the value and the
  number of digits.
\<close>

fun scan_digits :: "char option \<Rightarrow> nat \<Rightarrow> nat \<Rightarrow> string \<Rightarrow> (nat \<times> nat) option" where
  "scan_digits prev acc n [] =
     (if prev = Some (CHR ''_'') \<or> n = 0 then None else Some (acc, n))"
| "scan_digits prev acc n (c # cs) =
     (if c = CHR ''_'' then
        (if prev = None \<or> prev = Some (CHR ''_'') then None
         else scan_digits (Some c) acc n cs)
      else if is_digit c then scan_digits (Some c) (10 * acc + digit_val c) (Suc n) cs
      else None)"

text \<open>CPython's default limit on the number of digits \<open>int()\<close> converts from text.\<close>

definition max_str_digits :: nat where
  "max_str_digits = 4300"

text \<open>
  \<open>int(s)\<close> for a string, base 10: surrounding whitespace, an optional sign, then the digits.
  \<open>None\<close> stands for \<open>ValueError\<close>.
\<close>

definition int_of_str :: "string \<Rightarrow> int option" where
  "int_of_str s =
     (let t = dropWhile int_isspace s;
          neg = (t \<noteq> [] \<and> hd t = CHR ''-'');
          u = (if t \<noteq> [] \<and> (hd t = CHR ''+'' \<or> hd t = CHR ''-'') then tl t else t);
          body = rev (dropWhile int_isspace (rev u))
      in case scan_digits None 0 0 body of
           None \<Rightarrow> None
         | Some (v, n) \<Rightarrow>
             if max_str_digits < n then None
             else Some (if neg then - int v else int v))"

text \<open>\<open>int(f)\<close> for a finite float: the fraction is dropped (rounding toward zero).\<close>

definition float_to_int :: "real \<Rightarrow> int" where
  "float_to_int x = (if x < 0 then - \<lfloor>- x\<rfloor> else \<lfloor>x\<rfloor>)"

fun py_int :: "jval \<Rightarrow> exn + int" where
  "py_int (JInt i) = Inr i"
| "py_int (JBool b) = Inr (if b then 1 else 0)"
| "py_int (JFloat (Finite x)) = Inr (float_to_int x)"
| "py_int (JFloat NaN) = Inl NaNToInt"
| "py_int (JFloat PosInf) = Inl InfToInt"
| "py_int (JFloat NegInf) = Inl InfToInt"
| "py_int (JStr s) = (case int_of_str s of None \<Rightarrow> Inl (BadLiteral s) | Some i \<Rightarrow> Inr i)"
| "py_int JNull = Inl WrongType"
| "py_int (JList xs) = Inl WrongType"
| "py_int (JObj kvs) = Inl WrongType"

subsection \<open>Rounding to binary64: \<open>a / b\<close> and \<open>float(x)\<close>\<close>

text \<open>
  \<open>div_half_even x y\<close> is the integer nearest to \<open>x / y\<close> for \<open>0 \<le> x\<close> and \<open>0 < y\<close>, a tie
  going to the even neighbour.
\<close>

definition div_half_even :: "int \<Rightarrow> int \<Rightarrow> int" where
  "div_half_even x y =
     (let q = x div y; r = x mod y
      in if 2 * r < y then q
         else if y < 2 * r then q + 1
         else if even q then q else q + 1)"

text \<open>\<open>float_exponent a b\<close> is \<open>\<lfloor>log\<^sub>2 (a / b)\<rfloor>\<close> for positive \<open>a\<close> and \<open>b\<close>.\<close>

definition float_exponent :: "int \<Rightarrow> int \<Rightarrow> int" where
  "float_exponent a b =
     (let d = bitlen a - bitlen b
      in if (if 0 \<le> d then b * 2 ^ nat d \<le> a else b \<le> a * 2 ^ nat (- d)) then d else d - 1)"

text \<open>
  \<open>round_quotient a b\<close>, for \<open>0 \<le> a\<close> and \<open>0 < b\<close>, is the binary64 value nearest to \<open>a / b\<close>
  (53 significant bits, exponents from -1022, subnormal numbers below, ties to even), or
  \<open>None\<close> when that value is \<open>2\<^sup>1\<^sup>0\<^sup>2\<^sup>4\<close> or more, which Python reports as \<open>OverflowError\<close>.
  With exponent \<open>e\<close> the quotient is rounded to a multiple \<open>n\<close> of \<open>2\<^bsup>e - 52\<^esup>\<close> with
  \<open>n \<le> 2\<^sup>5\<^sup>3\<close>, so the value reaches \<open>2\<^sup>1\<^sup>0\<^sup>2\<^sup>4\<close> exactly when \<open>1024 \<le> e\<close>, or
  \<open>e = 1023\<close> and \<open>n = 2\<^sup>5\<^sup>3\<close>.
\<close>

definition round_quotient :: "int \<Rightarrow> int \<Rightarrow> real option" where
  "round_quotient a b =
     (if a = 0 then Some 0
      else
        let e = max (float_exponent a b) (- 1022);
            s = e - 52;
            n = (if 0 \<le> s then div_half_even a (b * 2 ^ nat s)
                 else div_half_even (a * 2 ^ nat (- s)) b)
        in if 1024 \<le> e \<or> (e = 1023 \<and> n = 2 ^ 53) then None
           else Some (of_int n * 2 powi s))"

text \<open>
  Python's true division \<open>a / b\<close> of two \<open>int\<close>s: the correctly rounded quotient,
  \<open>ZeroDivisionError\<close> for \<open>b = 0\<close>, and \<open>OverflowError\<close> when the quotient is too large for
  a float.
\<close>

definition py_truediv :: "int \<Rightarrow> int \<Rightarrow> exn + pyfloat" where
  "py_truediv a b =
     (if b = 0 then Inl DivisionByZero
      else case round_quotient \<bar>a\<bar> \<bar>b\<bar> of
             None \<Rightarrow> Inl TooLargeForFloat
           | Some r \<Rightarrow> Inr (Finite (if (a < 0) = (b < 0) then r else - r)))"

text \<open>
  \<open>float(x)\<close>. The conversion of text is a parameter \<open>fs\<close> (\<open>None\<close> for the texts
  \<open>float()\<close> rejects with \<open>ValueError\<close>): no property below depends on how a decimal text is
  rounded.
\<close>

fun py_float :: "(string \<Rightarrow> pyfloat option) \<Rightarrow> jval \<Rightarrow> exn + pyfloat" where
  "py_float fs (JFloat f) = Inr f"
| "py_float fs (JInt i) =
     (case round_quotient \<bar>i\<bar> 1 of
        None \<Rightarrow> Inl TooLargeForFloat
      | Some r \<Rightarrow> Inr (Finite (if i < 0 then - r else r)))"
| "py_float fs (JBool b) = Inr (Finite (if b then 1 else 0))"
| "py_float fs (JStr s) = (case fs s of None \<Rightarrow> Inl (BadLiteral s) | Some f \<Rightarrow> Inr f)"
| "py_float fs JNull = Inl WrongType"
| "py_float fs (JList xs) = Inl WrongType"
| "py_float fs (JObj kvs) = Inl WrongType"

section \<open>data\_models.py: \<open>StatusData\<close>\<close>

text \<open>
  \<open>from_json\<close> stores \<open>data["Application"]\<close> and \<open>data["Version"]\<close> as they are, so both
  fields hold a JSON value (a string for a well-formed payload); the other four fields are
  the results of \<open>float()\<close> and \<open>int()\<close>.
\<close>

record status_data =
  application :: jval
  version :: jval
  uptime :: pyfloat
  request_count :: int
  error_count :: int
  success_count :: int

text \<open>\<open>data[k]\<close>: \<open>KeyError\<close> for a key the dict lacks, \<open>TypeError\<close> when \<open>data\<close> is no dict.\<close>

fun getitem :: "jval \<Rightarrow> string \<Rightarrow> exn + jval" where
  "getitem (JObj kvs) k = (case map_of kvs k of None \<Rightarrow> Inl (KeyError k) | Some v \<Rightarrow> Inr v)"
| "getitem d k = Inl WrongType"

text \<open>Sequencing of steps that may raise: the first exception ends the computation.\<close>

definition bind_exn :: "exn + 'a \<Rightarrow> ('a \<Rightarrow> exn + 'b) \<Rightarrow> exn + 'b" where
  "bind_exn m f = (case m of Inl e \<Rightarrow> Inl e | Inr x \<Rightarrow> f x)"

text \<open>The body of the \<open>try\<close> in \<open>from_json\<close>: the six arguments, evaluated in order.\<close>

definition from_json_try :: "(string \<Rightarrow> pyfloat option) \<Rightarrow> jval \<Rightarrow> exn + status_data" where
  "from_json_try fs data =
     bind_exn (getitem data ''Application'') (\<lambda>app.
     bind_exn (getitem data ''Version'') (\<lambda>ver.
     bind_exn (bind_exn (getitem data ''Uptime'') (py_float fs)) (\<lambda>up.
     bind_exn (bind_exn (getitem data ''Request_Count'') py_int) (\<lambda>rc.
     bind_exn (bind_exn (getitem data ''Error_Count'') py_int) (\<lambda>ec.
     bind_exn (bind_exn (getitem data ''Success_Count'') py_int) (\<lambda>sc.
     Inr \<lparr>application = app, version = ver, uptime = up,
          request_count = rc, error_count = ec, success_count = sc\<rparr>))))))"

text \<open>
  \<open>except (KeyError, ValueError) as e: raise ValueError(...)\<close>: an exception of these two
  classes is replaced, any other one passes through.
\<close>

definition from_json :: "(string \<Rightarrow> pyfloat option) \<Rightarrow> jval \<Rightarrow> exn + status_data" where
  "from_json fs data =
     (case from_json_try fs data of
        Inl e \<Rightarrow>
          if class_of e = KeyErrorC \<or> class_of e = ValueErrorC then Inl (InvalidStatus e)
          else Inl e
      | Inr sd \<Rightarrow> Inr sd)"

text \<open>
  A payload with the six keys of the \<open>/status\<close> document, and \<open>int(data[k])\<close> for one of
  its count fields.
\<close>

definition status_payload :: "jval \<Rightarrow> jval \<Rightarrow> jval \<Rightarrow> jval \<Rightarrow> jval \<Rightarrow> jval \<Rightarrow> jval" where
  "status_payload app ver up rc ec sc =
     JObj [(''Application'', app), (''Version'', ver), (''Uptime'', up),
           (''Request_Count'', rc), (''Error_Count'', ec), (''Success_Count'', sc)]"


section \<open>report\_aggregator.py: \<open>ReportAggregator\<close>\<close>

text \<open>
  \<open>_agg_data\<close> is a dict from \<open>(application, version)\<close> to \<open>(total_success, total_request)\<close>,
  kept in insertion order. A dict finds a key by hash and \<open>==\<close>: lists and dicts cannot be
  hashed, and \<open>==\<close> identifies the numbers \<open>True\<close>, \<open>1\<close> and \<open>1.0\<close>. \<open>key_norm\<close> maps a value
  to a representative of its \<open>==\<close> class; strings are their own representatives. (The
  JSON decoder returns one and the same NaN object, which a dict finds again by identity.)
\<close>

type_synonym agg_key = "jval \<times> jval"

type_synonym aggregator = "(agg_key \<times> (int \<times> int)) list"

fun hashable :: "jval \<Rightarrow> bool" where
  "hashable (JList xs) = False"
| "hashable (JObj kvs) = False"
| "hashable v = True"

fun key_norm :: "jval \<Rightarrow> jval" where
  "key_norm (JBool b) = JInt (if b then 1 else 0)"
| "key_norm (JFloat (Finite x)) = (if x = of_int \<lfloor>x\<rfloor> then JInt \<lfloor>x\<rfloor> else JFloat (Finite x))"
| "key_norm v = v"

definition key_eq :: "agg_key \<Rightarrow> agg_key \<Rightarrow> bool" where
  "key_eq k k' = (key_norm (fst k) = key_norm (fst k') \<and> key_norm (snd k) = key_norm (snd k'))"

text \<open>\<open>d.get(k)\<close> and \<open>d[k] = v\<close>; an assignment to a key already present keeps its place.\<close>

fun agg_get :: "agg_key \<Rightarrow> aggregator \<Rightarrow> (int \<times> int) option" where
  "agg_get k [] = None"
| "agg_get k ((k', v) # rest) = (if key_eq k k' then Some v else agg_get k rest)"

fun agg_set :: "agg_key \<Rightarrow> int \<times> int \<Rightarrow> aggregator \<Rightarrow> aggregator" where
  "agg_set k v [] = [(k, v)]"
| "agg_set k v ((k', v') # rest) =
     (if key_eq k k' then (k', v) # rest else (k', v') # agg_set k v rest)"

definition add_status :: "status_data \<Rightarrow> aggregator \<Rightarrow> exn + aggregator" where
  "add_status status agg =
     (let key = (application status, version status)
      in if \<not> (hashable (fst key) \<and> hashable (snd key)) then Inl WrongType
         else
           let existing = (case agg_get key agg of None \<Rightarrow> (0, 0) | Some v \<Rightarrow> v);
               total_success = fst existing + success_count status;
               total_requests = snd existing + request_count status
           in Inr (agg_set key (total_success, total_requests) agg))"

text \<open>
  Notions for stating properties of the aggregator: the key of a record, whether the key can
  be hashed, the records of a list that fall into the bucket of a key, and a bucket whose
  totals satisfy \<open>0 \<le> total_success \<le> total_requests\<close>.
\<close>

definition key_of :: "status_data \<Rightarrow> agg_key" where
  "key_of s = (application s, version s)"

definition key_ok :: "status_data \<Rightarrow> bool" where
  "key_ok s = (hashable (application s) \<and> hashable (version s))"

definition bucket_of :: "agg_key \<Rightarrow> status_data list \<Rightarrow> status_data list" where
  "bucket_of k rs = filter (\<lambda>r. key_eq k (key_of r)) rs"

definition bucket_sane :: "agg_key \<times> int \<times> int \<Rightarrow> bool" where
  "bucket_sane b = (0 \<le> fst (snd b) \<and> fst (snd b) \<le> snd (snd b))"

text \<open>A sequence of \<open>add_status\<close> calls on one aggregator, in the order of the list.\<close>

fun add_all :: "status_data list \<Rightarrow> aggregator \<Rightarrow> exn + aggregator" where
  "add_all [] agg = Inr agg"
| "add_all (s # ss) agg = bind_exn (add_status s agg) (add_all ss)"

text \<open>
  \<open>get_results\<close>: the loop over \<open>_agg_data.items()\<close>, appending one dict per bucket to
  \<open>results\<close>.
\<close>

type_synonym result_entry = "(string \<times> jval) list"

fun results_loop :: "aggregator \<Rightarrow> result_entry list \<Rightarrow> exn + result_entry list" where
  "results_loop [] results = Inr results"
| "results_loop (((app, ver), (succ, req)) # items) results =
     bind_exn (if 0 < req then py_truediv succ req else Inr (Finite 0)) (\<lambda>success_rate.
       results_loop items
         (results @ [[(''application'', app), (''version'', ver),
                      (''total_requests'', JInt req), (''total_success'', JInt succ),
                      (''success_rate'', JFloat success_rate)]]))"

definition get_results :: "aggregator \<Rightarrow> exn + result_entry list" where
  "get_results agg = results_loop agg []"

text \<open>
  Notions for stating properties of \<open>get_results\<close>: the rate the loop body computes for a
  bucket, the dict it appends, and the relation between a bucket and its entry.
\<close>

definition bucket_rate :: "agg_key \<times> int \<times> int \<Rightarrow> exn + pyfloat" where
  "bucket_rate b =
     (if 0 < snd (snd b) then py_truediv (fst (snd b)) (snd (snd b)) else Inr (Finite 0))"

definition bucket_entry :: "agg_key \<times> int \<times> int \<Rightarrow> pyfloat \<Rightarrow> result_entry" where
  "bucket_entry b rate =
     [(''application'', fst (fst b)), (''version'', snd (fst b)),
      (''total_requests'', JInt (snd (snd b))), (''total_success'', JInt (fst (snd b))),
      (''success_rate'', JFloat rate)]"

definition entry_of_bucket :: "agg_key \<times> int \<times> int \<Rightarrow> result_entry \<Rightarrow> bool" where
  "entry_of_bucket b e =
     (case bucket_rate b of
        Inl x \<Rightarrow> False
      | Inr rate \<Rightarrow>
          e = bucket_entry b rate \<and>
          (if snd (snd b) = 0 then map_of e ''success_rate'' = Some (JFloat (Finite 0))
           else True))"

definition rate_in_unit :: "result_entry \<Rightarrow> bool" where
  "rate_in_unit e =
     (case map_of e ''success_rate'' of
        Some (JFloat (Finite x)) \<Rightarrow>
          0 \<le> x \<and> x \<le> 1 \<and> (if map_of e ''total_requests'' = Some (JInt 0) then x = 0 else True)
      | _ \<Rightarrow> False)"

section \<open>config.py: \<open>Config\<close>\<close>

text \<open>
  The class body reads three environment variables when the module is imported. The
  environment is a map from names to texts; \<open>os.getenv(k, d)\<close> is \<open>d\<close> for an unset name.
\<close>

record config =
  MAX_CONCURRENCY :: int
  TIMEOUT :: int
  OUTPUT_FILE :: string

definition getenv :: "(string \<rightharpoonup> string) \<Rightarrow> string \<Rightarrow> string \<Rightarrow> string" where
  "getenv env k d = (case env k of None \<Rightarrow> d | Some v \<Rightarrow> v)"

definition load_config :: "(string \<rightharpoonup> string) \<Rightarrow> exn + config" where
  "load_config env =
     bind_exn (py_int (JStr (getenv env ''MAX_CONCURRENCY'' ''50''))) (\<lambda>mc.
     bind_exn (py_int (JStr (getenv env ''HTTP_TIMEOUT'' ''5''))) (\<lambda>t.
     Inr \<lparr>MAX_CONCURRENCY = mc, TIMEOUT = t,
          OUTPUT_FILE = getenv env ''OUTPUT_FILE'' ''report.json''\<rparr>))"

section \<open>http\_client.py: \<open>ServerStatusClient\<close>\<close>

text \<open>
  What one request does is decided outside the program: \<open>session.get\<close> raises (a connection
  error or a timeout), or \<open>resp.raise_for_status()\<close> raises (an error status), or
  \<open>resp.json()\<close> raises (malformed JSON), or the body decodes to a JSON value. The session
  is the function from the URL and the timeout to this outcome.
\<close>

datatype http_outcome =
    GetRaises exn
  | StatusRaises exn
  | JsonRaises exn
  | Body jval

record client =
  session :: "string \<Rightarrow> int \<Rightarrow> http_outcome"
  timeout :: int

text \<open>The lines the program prints to \<open>sys.stderr\<close>: the server and the exception formatted.\<close>

datatype log_entry =
    Warning string exn
  | ProcessError string exn

text \<open>
  \<open>fetch_status\<close> returns the record or the exception it raises, and the lines it printed.
  Every exception of the \<open>try\<close> block is printed and raised again, unchanged.
\<close>

definition fetch_try :: "(string \<Rightarrow> pyfloat option) \<Rightarrow> client \<Rightarrow> string \<Rightarrow> exn + status_data" where
  "fetch_try fs self server =
     (let url = ''http://'' @ server @ ''/status''
      in case session self url (timeout self) of
           GetRaises e \<Rightarrow> Inl e
         | StatusRaises e \<Rightarrow> Inl e
         | JsonRaises e \<Rightarrow> Inl e
         | Body data \<Rightarrow> from_json fs data)"

definition fetch_status ::
  "(string \<Rightarrow> pyfloat option) \<Rightarrow> client \<Rightarrow> string \<Rightarrow> (exn + status_data) \<times> log_entry list" where
  "fetch_status fs self server =
     (case fetch_try fs self server of
        Inl ex \<Rightarrow> (Inl ex, [Warning server ex])
      | Inr sd \<Rightarrow> (Inr sd, []))"

section \<open>report\_writer.py: \<open>ReportWriter\<close>\<close>

text \<open>
  \<open>write\<close> works on dict and list objects that its caller also holds, so objects live in a
  store: an address is an index into the list of objects, and a new object is put at the
  end. A value is JSON data held by value, a reference to an object, or the text of a
  formatted string. The text an f-string produces is kept as its pieces: literal text,
  \<open>str(v)\<close> of a value, and \<open>format(v, ".2f")\<close> of a value.
\<close>

datatype pyval = Val jval | Ref nat | FStr "piece list"
  and piece = Lit string | Str pyval | Fixed2 pyval

datatype heap_obj = DictObj "(string \<times> pyval) list" | ListObj "pyval list"

type_synonym heap = "heap_obj list"

definition alloc :: "heap_obj \<Rightarrow> heap \<Rightarrow> nat \<times> heap" where
  "alloc obj h = (length h, h @ [obj])"

text \<open>\<open>obj[k]\<close> for a string \<open>k\<close>: only a dict can be read this way.\<close>

fun subscript :: "heap \<Rightarrow> pyval \<Rightarrow> string \<Rightarrow> exn + pyval" where
  "subscript h (Ref a) k =
     (if a < length h then
        (case h ! a of
           DictObj kvs \<Rightarrow> (case map_of kvs k of None \<Rightarrow> Inl (KeyError k) | Some v \<Rightarrow> Inr v)
         | ListObj vs \<Rightarrow> Inl WrongType)
      else Inl WrongType)"
| "subscript h (Val (JObj kvs)) k =
     (case map_of kvs k of None \<Rightarrow> Inl (KeyError k) | Some v \<Rightarrow> Inr (Val v))"
| "subscript h (Val v) k = Inl WrongType"
| "subscript h (FStr ps) k = Inl WrongType"

text \<open>
  \<open>format(v, ".2f")\<close>: numbers are formatted (an \<open>int\<close> through \<open>float\<close>), a string raises
  \<open>ValueError\<close>, anything else \<open>TypeError\<close>.
\<close>

fun format_2f :: "pyval \<Rightarrow> exn + piece" where
  "format_2f (Val (JFloat f)) = Inr (Fixed2 (Val (JFloat f)))"
| "format_2f (Val (JInt i)) =
     (case round_quotient \<bar>i\<bar> 1 of
        None \<Rightarrow> Inl TooLargeForFloat
      | Some r \<Rightarrow> Inr (Fixed2 (Val (JInt i))))"
| "format_2f (Val (JBool b)) = Inr (Fixed2 (Val (JBool b)))"
| "format_2f (Val (JStr s)) = Inl BadFormatCode"
| "format_2f (FStr ps) = Inl BadFormatCode"
| "format_2f v = Inl WrongType"

text \<open>The line of the first loop, its five fields read and formatted from left to right.\<close>

definition report_line :: "heap \<Rightarrow> pyval \<Rightarrow> exn + piece list" where
  "report_line h res =
     bind_exn (subscript h res ''application'') (\<lambda>a.
     bind_exn (subscript h res ''version'') (\<lambda>v.
     bind_exn (bind_exn (subscript h res ''success_rate'') format_2f) (\<lambda>r.
     bind_exn (subscript h res ''total_requests'') (\<lambda>q.
     bind_exn (subscript h res ''total_success'') (\<lambda>s.
     Inr [Str a, Lit '' (v'', Str v, Lit ''): Success Rate='', r,
          Lit '' (Requests='', Str q, Lit '', Success='', Str s, Lit '')''])))))"

fun print_loop ::
  "heap \<Rightarrow> pyval list \<Rightarrow> piece list list \<Rightarrow> (exn + unit) \<times> piece list list" where
  "print_loop h [] out = (Inr (), out)"
| "print_loop h (res # rest) out =
     (case report_line h res of
        Inl e \<Rightarrow> (Inl e, out)
      | Inr line \<Rightarrow> print_loop h rest (out @ [line]))"

text \<open>\<open>dict(item)\<close>: a new dict object with the entries of \<open>item\<close>.\<close>

fun dict_copy :: "heap \<Rightarrow> pyval \<Rightarrow> exn + nat \<times> heap" where
  "dict_copy h (Ref a) =
     (if a < length h then
        (case h ! a of
           DictObj kvs \<Rightarrow> Inr (alloc (DictObj kvs) h)
         | ListObj vs \<Rightarrow> Inl WrongType)
      else Inl WrongType)"
| "dict_copy h (Val (JObj kvs)) = Inr (alloc (DictObj (map (\<lambda>(k, v). (k, Val v)) kvs)) h)"
| "dict_copy h v = Inl WrongType"

text \<open>\<open>d[k] = v\<close> on the dict object at \<open>a\<close>, and \<open>l.append(v)\<close> on the list object at \<open>a\<close>.\<close>

fun assoc_set :: "string \<Rightarrow> pyval \<Rightarrow> (string \<times> pyval) list \<Rightarrow> (string \<times> pyval) list" where
  "assoc_set k v [] = [(k, v)]"
| "assoc_set k v ((k', v') # rest) =
     (if k = k' then (k', v) # rest else (k', v') # assoc_set k v rest)"

definition dict_setitem :: "nat \<Rightarrow> string \<Rightarrow> pyval \<Rightarrow> heap \<Rightarrow> heap" where
  "dict_setitem a k v h =
     (if a < length h then
        (case h ! a of DictObj kvs \<Rightarrow> h[a := DictObj (assoc_set k v kvs)] | ListObj vs \<Rightarrow> h)
      else h)"

definition list_append :: "nat \<Rightarrow> pyval \<Rightarrow> heap \<Rightarrow> heap" where
  "list_append a v h =
     (if a < length h then
        (case h ! a of ListObj vs \<Rightarrow> h[a := ListObj (vs @ [v])] | DictObj kvs \<Rightarrow> h)
      else h)"

text \<open>
  The second loop: \<open>data_with_links\<close> is the list object at \<open>dl\<close>. The right-hand side
  \<open>{"self": f"/apps/.../info"}\<close> is built before it is stored under \<open>"links"\<close> in the copy.
  The loop does not write to the list it runs over (the objects it writes to are new), so it
  runs over the elements that list has when the loop starts.
\<close>

fun links_loop :: "pyval list \<Rightarrow> nat \<Rightarrow> heap \<Rightarrow> (exn + unit) \<times> heap" where
  "links_loop [] dl h = (Inr (), h)"
| "links_loop (item # rest) dl h =
     (case dict_copy h item of
        Inl e \<Rightarrow> (Inl e, h)
      | Inr (item_copy, h1) \<Rightarrow>
          (case bind_exn (subscript h1 item ''application'') (\<lambda>a.
                bind_exn (subscript h1 item ''version'') (\<lambda>v. Inr (a, v))) of
             Inl e \<Rightarrow> (Inl e, h1)
           | Inr (a, v) \<Rightarrow>
               (let (links, h2) =
                      alloc (DictObj [(''self'',
                        FStr [Lit ''/apps/'', Str a, Lit ''/'', Str v, Lit ''/info''])]) h1;
                    h3 = dict_setitem item_copy ''links'' (Ref links) h2;
                    h4 = list_append dl (Ref item_copy) h3
                in links_loop rest dl h4)))"

text \<open>
  \<open>json.dump\<close> raises \<open>ValueError\<close> for an object that contains itself. \<open>dumpable n h v\<close>
  follows references to depth \<open>n\<close>; with \<open>n\<close> above the number of objects it fails exactly
  on a circular value. The written file is recorded as the dumped value with the store it
  was read from.
\<close>

fun dumpable :: "nat \<Rightarrow> heap \<Rightarrow> pyval \<Rightarrow> bool" where
  "dumpable 0 h v = False"
| "dumpable (Suc n) h (Val j) = True"
| "dumpable (Suc n) h (FStr ps) = True"
| "dumpable (Suc n) h (Ref a) =
     (a < length h \<and>
      (case h ! a of
         DictObj kvs \<Rightarrow> list_all (\<lambda>kv. dumpable n h (snd kv)) kvs
       | ListObj vs \<Rightarrow> list_all (dumpable n h) vs))"

datatype file_data = JsonDump heap pyval | PartialDump

text \<open>
  The effects of the program on its surroundings: the object store, the two output streams,
  the files written, and the limits of the \<open>TCPConnector\<close>s created.
\<close>

record world =
  heap :: heap
  stdout :: "piece list list"
  stderr :: "log_entry list"
  written :: "string \<rightharpoonup> file_data"
  connectors :: "int list"

definition list_items :: "heap \<Rightarrow> nat \<Rightarrow> exn + pyval list" where
  "list_items h a =
     (if a < length h then (case h ! a of ListObj vs \<Rightarrow> Inr vs | DictObj kvs \<Rightarrow> Inl WrongType)
      else Inl WrongType)"

text \<open>
  \<open>ReportWriter.write\<close> (\<open>write\<close> is a keyword of the proof language, hence the longer
  name): \<open>results\<close> is the address of the list passed in; \<open>writable\<close> tells whether
  \<open>open(path, "w")\<close> succeeds.
\<close>

definition write_report ::
  "(string \<Rightarrow> bool) \<Rightarrow> string \<Rightarrow> nat \<Rightarrow> world \<Rightarrow> (exn + unit) \<times> world" where
  "write_report writable output_file results w =
     (let w1 = w\<lparr>stdout := stdout w @
                  [[Lit (replicate 60 (CHR ''=''))], [Lit ''SUCCESS RATE REPORT''],
                   [Lit (replicate 60 (CHR ''=''))]]\<rparr>
      in case list_items (heap w1) results of
           Inl e \<Rightarrow> (Inl e, w1)
         | Inr elems \<Rightarrow>
             (case print_loop (heap w1) elems (stdout w1) of
                (Inl e, out) \<Rightarrow> (Inl e, w1\<lparr>stdout := out\<rparr>)
              | (Inr u, out) \<Rightarrow>
                  (let w2 = w1\<lparr>stdout := out\<rparr>;
                       (data_with_links, h1) = alloc (ListObj []) (heap w2)
                   in case links_loop elems data_with_links h1 of
                        (Inl e, h2) \<Rightarrow> (Inl e, w2\<lparr>heap := h2\<rparr>)
                      | (Inr u, h2) \<Rightarrow>
                          (let w3 = w2\<lparr>heap := h2\<rparr>
                           in if \<not> writable output_file then (Inl (FileError output_file), w3)
                              else if \<not> dumpable (Suc (length h2)) h2 (Ref data_with_links)
                              then (Inl CircularReference,
                                    w3\<lparr>written := (written w3)(output_file \<mapsto> PartialDump)\<rparr>)
                              else (Inr (),
                                    w3\<lparr>written := (written w3)(output_file \<mapsto>
                                                     JsonDump h2 (Ref data_with_links)),
                                       stdout := stdout w3 @
                                         [[Lit (CHR 0x0A # ''Wrote JSON report to '' @
                                                output_file)]]\<rparr>)))))"

section \<open>tool.py: \<open>StatusTool\<close>\<close>

record status_tool =
  servers_file :: string
  output_file :: string

text \<open>
  A file opened with \<open>open(path, "r")\<close> is read with universal newlines: \<open>\r\n\<close> and \<open>\r\<close>
  arrive as \<open>\n\<close>. Iterating over the file gives its lines, each with its \<open>\n\<close> (the last
  line may lack it).
\<close>

fun universal_newlines :: "string \<Rightarrow> string" where
  "universal_newlines [] = []"
| "universal_newlines [c] = [if c = CHR 0x0D then CHR 0x0A else c]"
| "universal_newlines (c # d # cs) =
     (if c = CHR 0x0D \<and> d = CHR 0x0A then CHR 0x0A # universal_newlines cs
      else if c = CHR 0x0D then CHR 0x0A # universal_newlines (d # cs)
      else c # universal_newlines (d # cs))"

fun file_lines :: "string \<Rightarrow> string list" where
  "file_lines [] = []"
| "file_lines (c # cs) =
     (if c = CHR 0x0A then [c] # file_lines cs
      else (case file_lines cs of [] \<Rightarrow> [[c]] | l # ls \<Rightarrow> (c # l) # ls))"

fun read_loop :: "string list \<Rightarrow> string list \<Rightarrow> string list" where
  "read_loop [] servers = servers"
| "read_loop (line # rest) servers =
     (let line = strip line
      in if line = [] \<or> startswith line ''#'' then read_loop rest servers
         else read_loop rest (servers @ [line]))"

text \<open>\<open>text_files\<close> gives the text of each file that can be opened for reading.\<close>

definition read_servers :: "(string \<rightharpoonup> string) \<Rightarrow> string \<Rightarrow> exn + string list" where
  "read_servers text_files filepath =
     (case text_files filepath of
        None \<Rightarrow> Inl (FileError filepath)
      | Some text \<Rightarrow> Inr (read_loop (file_lines (universal_newlines text)) []))"

text \<open>
  The two things the tasks share: the aggregator and the error stream. A task suspends
  only while its request is in flight; what follows the request (\<open>from_json\<close>, the prints,
  \<open>add_status\<close>) runs without suspension, so the tasks act on the shared state one after the
  other, in the order in which their requests complete.
\<close>

record task_state =
  aggregator :: aggregator
  errlog :: "log_entry list"

definition fetch_and_aggregate ::
  "(string \<Rightarrow> pyfloat option) \<Rightarrow> client \<Rightarrow> string \<Rightarrow> task_state \<Rightarrow> (exn + unit) \<times> task_state" where
  "fetch_and_aggregate fs cl server st =
     (case fetch_status fs cl server of
        (Inl e, printed) \<Rightarrow>
          (Inr (), st\<lparr>errlog := errlog st @ printed @ [ProcessError server e]\<rparr>)
      | (Inr status_data, printed) \<Rightarrow>
          (case add_status status_data (aggregator st) of
             Inl e \<Rightarrow> (Inr (), st\<lparr>errlog := errlog st @ printed @ [ProcessError server e]\<rparr>)
           | Inr agg' \<Rightarrow> (Inr (), st\<lparr>aggregator := agg', errlog := errlog st @ printed\<rparr>)))"

text \<open>
  \<open>asyncio.gather(*tasks, return_exceptions=True)\<close>, its result discarded: every task runs
  to its end, whatever the others return or raise. The list gives the servers of the tasks
  in the order of completion.
\<close>

fun gather ::
  "(string \<Rightarrow> pyfloat option) \<Rightarrow> client \<Rightarrow> string list \<Rightarrow> task_state \<Rightarrow> task_state" where
  "gather fs cl [] st = st"
| "gather fs cl (server # rest) st = gather fs cl rest (snd (fetch_and_aggregate fs cl server st))"

text \<open>
  What surrounds a run: the readable text files, the files that can be opened for writing,
  the network, \<open>float()\<close> on text, and the order in which the event loop completes the
  tasks it was given (a rearrangement of them).
\<close>

record runtime =
  text_files :: "string \<rightharpoonup> string"
  writable :: "string \<Rightarrow> bool"
  network :: "string \<Rightarrow> int \<Rightarrow> http_outcome"
  float_of_str :: "string \<Rightarrow> pyfloat option"
  completion :: "string list \<Rightarrow> string list"

text \<open>\<open>get_results\<close> builds its dicts and its list as new objects.\<close>

definition store_results :: "result_entry list \<Rightarrow> heap \<Rightarrow> nat \<times> heap" where
  "store_results entries h =
     (length h + length entries,
      h @ map (\<lambda>e. DictObj (map (\<lambda>(k, v). (k, Val v)) e)) entries
        @ [ListObj (map Ref [length h ..< length h + length entries])])"

definition run :: "runtime \<Rightarrow> config \<Rightarrow> status_tool \<Rightarrow> world \<Rightarrow> (exn + unit) \<times> world" where
  "run rt cfg self w =
     (case read_servers (text_files rt) (servers_file self) of
        Inl e \<Rightarrow> (Inl e, w)
      | Inr servers \<Rightarrow>
          (let w1 = w\<lparr>connectors := connectors w @ [MAX_CONCURRENCY cfg]\<rparr>;
               cl = \<lparr>session = network rt, timeout = TIMEOUT cfg\<rparr>;
               st = gather (float_of_str rt) cl (completion rt servers)
                      \<lparr>aggregator = [], errlog = []\<rparr>;
               w2 = w1\<lparr>stderr := stderr w1 @ errlog st\<rparr>
           in case get_results (aggregator st) of
                Inl e \<Rightarrow> (Inl e, w2)
              | Inr results \<Rightarrow>
                  (let (ra, h) = store_results results (heap w2)
                   in write_report (writable rt) (output_file self) ra (w2\<lparr>heap := h\<rparr>))))"

section \<open>Example data\<close>

text \<open>The two records of \<open>test_aggregator_basic\<close>, and a record that reports no requests.\<close>

definition status1 :: status_data where
  "status1 = \<lparr>application = JStr ''App1'', version = JStr ''1.0'', uptime = Finite 100,
               request_count = 10, error_count = 2, success_count = 8\<rparr>"

definition status2 :: status_data where
  "status2 = \<lparr>application = JStr ''App1'', version = JStr ''1.0'', uptime = Finite 150,
               request_count = 20, error_count = 5, success_count = 15\<rparr>"

definition status_idle :: status_data where
  "status_idle = \<lparr>application = JStr ''App2'', version = JStr ''1.0'', uptime = Finite 50,
                   request_count = 0, error_count = 0, success_count = 0\<rparr>"


section \<open>Properties of the rounding\<close>

lemma div_half_even_le:
  assumes "0 < y" "x \<le> k * y"
  shows "div_half_even x y \<le> k"
proof -
  have q: "x div y \<le> k"
    using assms by (metis zdiv_mono1 nonzero_mult_div_cancel_right less_irrefl)
  show ?thesis
  proof (cases "x div y = k")
    case True
    have "x = y * (x div y) + x mod y" by simp
    moreover have "0 \<le> x mod y" using assms(1) by simp
    ultimately have "x mod y = 0" using assms(2) True
      by (metis add.commute add_le_same_cancel2 mult.commute order_antisym)
    then show ?thesis using True assms(1) by (simp add: div_half_even_def Let_def)
  next
    case False
    then have "x div y + 1 \<le> k" using q by simp
    then show ?thesis using q by (simp add: div_half_even_def Let_def)
  qed
qed

lemma div_half_even_nonneg:
  assumes "0 < y" "0 \<le> x"
  shows "0 \<le> div_half_even x y"
proof -
  have "0 \<le> x div y" using assms by (simp add: pos_imp_zdiv_nonneg_iff)
  then show ?thesis by (simp add: div_half_even_def Let_def)
qed

lemma bitlen_mono: "a \<le> b \<Longrightarrow> bitlen a \<le> bitlen b"
  by (simp add: bitlen_def floorlog_mono)

lemma float_exponent_le_zero:
  assumes "a \<le> b"
  shows "float_exponent a b \<le> 0"
proof -
  have "bitlen a - bitlen b \<le> 0" using bitlen_mono[OF assms] by simp
  then show ?thesis by (simp add: float_exponent_def Let_def)
qed

lemma round_quotient_unit:
  assumes "0 \<le> a" "a \<le> b" "0 < b"
  shows "\<exists>r. round_quotient a b = Some r \<and> 0 \<le> r \<and> r \<le> 1"
proof (cases "a = 0")
  case True
  then show ?thesis by (simp add: round_quotient_def)
next
  case False
  define e where "e = max (float_exponent a b) (- 1022)"
  define k where "k = nat (52 - e)"
  define n where "n = div_half_even (a * 2 ^ k) b"
  have e0: "e \<le> 0" using float_exponent_le_zero[OF assms(2)] by (simp add: e_def)
  have s: "\<not> 0 \<le> e - 52" "nat (- (e - 52)) = k" using e0 by (simp_all add: k_def)
  have "a * 2 ^ k \<le> 2 ^ k * b" using assms by simp
  then have nle: "n \<le> 2 ^ k" unfolding n_def using assms(3) by (rule div_half_even_le[rotated])
  have nge: "0 \<le> n" unfolding n_def using assms by (intro div_half_even_nonneg) simp_all
  have rq: "round_quotient a b = Some (of_int n * 2 powi (e - 52))"
    using False e0 s by (simp add: round_quotient_def Let_def e_def[symmetric] n_def)
  have p: "(2::real) powi (e - 52) = 1 / 2 ^ k"
    using e0 by (simp add: power_int_def k_def power_one_over inverse_eq_divide nat_diff_distrib)
  have "real_of_int n \<le> 2 ^ k" using nle by (metis of_int_le_iff of_int_numeral of_int_power)
  then have "of_int n * (2::real) powi (e - 52) \<le> 1" by (simp add: p)
  moreover have "0 \<le> of_int n * (2::real) powi (e - 52)" using nge by (simp add: p)
  ultimately show ?thesis using rq by simp
qed

lemma float_exponent_upper:
  assumes "0 < a" "0 < b" "a < 2 ^ m * b"
  shows "float_exponent a b < int m"
proof -
  define d where "d = bitlen a - bitlen b"
  have d: "d \<le> int m"
  proof -
    have "2 ^ nat (bitlen a - 1) \<le> a" using bitlen_bounds[OF assms(1)] by simp
    also have "a < 2 ^ m * b" by (rule assms(3))
    also have "2 ^ m * b \<le> 2 ^ m * 2 ^ nat (bitlen b)"
      using bitlen_bounds[OF assms(2)] by simp
    finally have "(2::int) ^ nat (bitlen a - 1) < 2 ^ (m + nat (bitlen b))"
      by (simp add: power_add)
    then have "nat (bitlen a - 1) < m + nat (bitlen b)" by simp
    then show ?thesis using bitlen_nonneg[of b] by (simp add: d_def)
  qed
  have "d < int m" if c: "0 \<le> d" "b * 2 ^ nat d \<le> a"
  proof -
    have "b * 2 ^ nat d < b * 2 ^ m" using c(2) assms(3) by (simp add: mult.commute)
    then have "(2::int) ^ nat d < 2 ^ m" using assms(2) by simp
    then have "nat d < m" by simp
    then show ?thesis by simp
  qed
  then show ?thesis using d by (auto simp add: float_exponent_def Let_def d_def[symmetric])
qed

lemma round_quotient_in_range:
  assumes "0 \<le> a" "0 < b" "a < 2 ^ 1023 * b"
  shows "\<exists>r. round_quotient a b = Some r"
proof (cases "a = 0")
  case True
  then show ?thesis by (simp add: round_quotient_def)
next
  case False
  define e where "e = max (float_exponent a b) (- 1022)"
  have "float_exponent a b < int 1023" using False assms by (intro float_exponent_upper) simp_all
  then have "e \<le> 1022" by (simp add: e_def)
  then show ?thesis using False by (auto simp add: round_quotient_def Let_def e_def[symmetric])
qed

lemma float_exponent_pow2: "float_exponent (2 ^ k) 1 = int k"
proof -
  have "bitlen (1 * 2 ^ k) = bitlen 1 + int k" by (rule bitlen_pow2) simp
  moreover have "bitlen 1 = 1" by (simp add: bitlen_alt_def)
  ultimately show ?thesis by (simp add: float_exponent_def)
qed

lemma round_quotient_overflow: "1024 \<le> k \<Longrightarrow> round_quotient (2 ^ k) 1 = None"
  by (simp add: round_quotient_def float_exponent_pow2 Let_def)

lemma py_truediv_overflow: "1024 \<le> k \<Longrightarrow> py_truediv (2 ^ k) 1 = Inl TooLargeForFloat"
  by (simp add: py_truediv_def round_quotient_overflow)

section \<open>Properties of the aggregator\<close>

lemma key_eq_refl: "key_eq k k"
  by (simp add: key_eq_def)

lemma key_eq_sym: "key_eq k k' = key_eq k' k"
  by (auto simp add: key_eq_def)

lemma key_eq_trans: "key_eq k k' \<Longrightarrow> key_eq k' k'' \<Longrightarrow> key_eq k k''"
  by (simp add: key_eq_def)

lemma key_eq_cong: "key_eq k' k'' \<Longrightarrow> key_eq k k'' = key_eq k k'"
  by (auto simp add: key_eq_def)

lemma agg_get_set:
  "agg_get k (agg_set k' v agg) = (if key_eq k k' then Some v else agg_get k agg)"
  by (induction agg) (auto simp add: key_eq_def)

lemma length_agg_set:
  "length (agg_set k v agg) = (if agg_get k agg = None then Suc (length agg) else length agg)"
  by (induction agg) (auto split: if_splits)

lemma add_status_ok:
  "key_ok s \<Longrightarrow>
   add_status s agg =
     Inr (agg_set (key_of s)
            (fst (case agg_get (key_of s) agg of None \<Rightarrow> (0, 0) | Some v \<Rightarrow> v) + success_count s,
             snd (case agg_get (key_of s) agg of None \<Rightarrow> (0, 0) | Some v \<Rightarrow> v) + request_count s)
            agg)"
  by (simp add: add_status_def key_ok_def key_of_def Let_def)

lemma add_status_get:
  assumes "key_ok s" "add_status s agg = Inr agg'"
  shows "agg_get k agg' =
     (if key_eq k (key_of s) then
        Some (fst (case agg_get k agg of None \<Rightarrow> (0, 0) | Some v \<Rightarrow> v) + success_count s,
              snd (case agg_get k agg of None \<Rightarrow> (0, 0) | Some v \<Rightarrow> v) + request_count s)
      else agg_get k agg)"
proof -
  have "agg_get k agg = agg_get (key_of s) agg" if "key_eq k (key_of s)"
    using that by (induction agg) (auto simp add: key_eq_def)
  then show ?thesis using assms by (auto simp add: add_status_ok agg_get_set)
qed

lemma add_all_get:
  assumes "\<forall>r\<in>set rs. key_ok r"
  shows "\<exists>agg'. add_all rs agg = Inr agg' \<and>
     agg_get k agg' =
       (if bucket_of k rs = [] then agg_get k agg
        else Some (fst (case agg_get k agg of None \<Rightarrow> (0, 0) | Some v \<Rightarrow> v)
                     + sum_list (map success_count (bucket_of k rs)),
                   snd (case agg_get k agg of None \<Rightarrow> (0, 0) | Some v \<Rightarrow> v)
                     + sum_list (map request_count (bucket_of k rs))))"
  using assms
proof (induction rs arbitrary: agg)
  case Nil
  then show ?case by (simp add: bucket_of_def)
next
  case (Cons s ss)
  then have ok: "key_ok s" and oks: "\<forall>r\<in>set ss. key_ok r" by simp_all
  obtain agg1 where a1: "add_status s agg = Inr agg1" using ok by (simp add: add_status_ok)
  obtain agg' where a2: "add_all ss agg1 = Inr agg'" and
    g: "agg_get k agg' =
       (if bucket_of k ss = [] then agg_get k agg1
        else Some (fst (case agg_get k agg1 of None \<Rightarrow> (0, 0) | Some v \<Rightarrow> v)
                     + sum_list (map success_count (bucket_of k ss)),
                   snd (case agg_get k agg1 of None \<Rightarrow> (0, 0) | Some v \<Rightarrow> v)
                     + sum_list (map request_count (bucket_of k ss))))"
    using Cons.IH[OF oks, of agg1] by blast
  have "add_all (s # ss) agg = Inr agg'" using a1 a2 by (simp add: bind_exn_def)
  moreover have "agg_get k agg' =
       (if bucket_of k (s # ss) = [] then agg_get k agg
        else Some (fst (case agg_get k agg of None \<Rightarrow> (0, 0) | Some v \<Rightarrow> v)
                     + sum_list (map success_count (bucket_of k (s # ss))),
                   snd (case agg_get k agg of None \<Rightarrow> (0, 0) | Some v \<Rightarrow> v)
                     + sum_list (map request_count (bucket_of k (s # ss)))))"
    unfolding g add_status_get[OF ok a1] by (simp add: bucket_of_def)
  ultimately show ?case by blast
qed

lemma bucket_sum_perm:
  fixes f :: "status_data \<Rightarrow> int"
  assumes "mset rs' = mset rs"
  shows "sum_list (map f (bucket_of k rs')) = sum_list (map f (bucket_of k rs))"
    and "(bucket_of k rs' = []) = (bucket_of k rs = [])"
proof -
  have m: "mset (bucket_of k rs') = mset (bucket_of k rs)"
    using assms by (simp add: bucket_of_def)
  then have "mset (map f (bucket_of k rs')) = mset (map f (bucket_of k rs))" by simp
  then show "sum_list (map f (bucket_of k rs')) = sum_list (map f (bucket_of k rs))"
    by (metis sum_mset_sum_list)
  show "(bucket_of k rs' = []) = (bucket_of k rs = [])"
    using m by (metis mset_zero_iff)
qed

text \<open>
  Claim C1. Records are ingested with \<open>add_status\<close> into an empty aggregator, in the order
  \<open>rs\<close> or in any rearrangement \<open>rs'\<close> of it. Both ingestions succeed, and for every key the
  bucket holds the sum of the \<open>success_count\<close> fields and the sum of the \<open>request_count\<close>
  fields of the records with that key (there is no bucket when no record has the key); the
  totals are the same for both orders.
\<close>

theorem add_status_totals:
  assumes "\<forall>r\<in>set rs. key_ok r" and "mset rs' = mset rs"
  shows "\<exists>agg agg'. add_all rs [] = Inr agg \<and> add_all rs' [] = Inr agg' \<and>
           agg_get k agg' = agg_get k agg \<and>
           agg_get k agg =
             (if bucket_of k rs = [] then None
              else Some (sum_list (map success_count (bucket_of k rs)),
                         sum_list (map request_count (bucket_of k rs))))"
proof -
  have "\<forall>r\<in>set rs'. key_ok r" using assms by (metis set_mset_mset)
  from add_all_get[OF this, of "[]" k] add_all_get[OF assms(1), of "[]" k]
  show ?thesis
    by (auto simp add: bucket_sum_perm[OF assms(2)])
qed

theorem add_status_totals_witness:
  "key_ok status1 \<and> key_ok status2 \<and> key_ok status_idle \<and>
   mset [status2, status_idle, status1] = mset [status1, status2, status_idle] \<and>
   (\<exists>agg agg'.
      add_all [status1, status2, status_idle] [] = Inr agg \<and>
      add_all [status2, status_idle, status1] [] = Inr agg' \<and>
      agg_get (JStr ''App1'', JStr ''1.0'') agg' = agg_get (JStr ''App1'', JStr ''1.0'') agg \<and>
      agg_get (JStr ''App1'', JStr ''1.0'') agg = Some (23, 30))"
proof -
  have ok: "\<forall>r\<in>set [status1, status2, status_idle]. key_ok r"
    by (simp add: key_ok_def status1_def status2_def status_idle_def)
  have perm: "mset [status2, status_idle, status1] = mset [status1, status2, status_idle]"
    by (simp add: add.commute)
  have b: "bucket_of (JStr ''App1'', JStr ''1.0'') [status1, status2, status_idle] =
             [status1, status2]"
    by (simp add: bucket_of_def key_of_def key_eq_def status1_def status2_def status_idle_def)
  show ?thesis
    using add_status_totals[OF ok perm, of "(JStr ''App1'', JStr ''1.0'')"] ok perm
    by (simp add: b) (simp add: status1_def status2_def)
qed

lemma results_loop_step:
  "results_loop (b # items) acc =
     bind_exn (bucket_rate b) (\<lambda>rate. results_loop items (acc @ [bucket_entry b rate]))"
proof -
  obtain app ver succ req where "b = ((app, ver), (succ, req))"
    by (metis surj_pair)
  then show ?thesis by (simp add: bucket_rate_def bucket_entry_def)
qed

lemma results_loop_Inr:
  "results_loop agg acc = Inr rs \<Longrightarrow>
   \<exists>es. rs = acc @ es \<and>
     list_all2 (\<lambda>b e. \<exists>rate. bucket_rate b = Inr rate \<and> e = bucket_entry b rate) agg es"
proof (induction agg arbitrary: acc)
  case Nil
  then show ?case by simp
next
  case (Cons b items)
  from Cons.prems obtain rate where r: "bucket_rate b = Inr rate"
    and l: "results_loop items (acc @ [bucket_entry b rate]) = Inr rs"
    by (auto simp add: results_loop_step bind_exn_def split: sum.splits)
  from Cons.IH[OF l] obtain es where "rs = (acc @ [bucket_entry b rate]) @ es"
    and "list_all2 (\<lambda>b e. \<exists>rate. bucket_rate b = Inr rate \<and> e = bucket_entry b rate) items es"
    by blast
  then have "rs = acc @ (bucket_entry b rate # es) \<and>
     list_all2 (\<lambda>b e. \<exists>rate. bucket_rate b = Inr rate \<and> e = bucket_entry b rate)
       (b # items) (bucket_entry b rate # es)"
    using r by simp
  then show ?case by blast
qed

lemma py_truediv_error:
  "py_truediv a b = Inl e \<Longrightarrow> b \<noteq> 0 \<Longrightarrow> e = TooLargeForFloat"
  by (auto simp add: py_truediv_def split: option.splits)

lemma bucket_rate_error: "bucket_rate b = Inl e \<Longrightarrow> e = TooLargeForFloat"
  by (auto simp add: bucket_rate_def dest: py_truediv_error split: if_splits)

lemma results_loop_Inl:
  "results_loop agg acc = Inl e \<Longrightarrow> e = TooLargeForFloat"
proof (induction agg arbitrary: acc)
  case Nil
  then show ?case by simp
next
  case (Cons b items)
  then show ?case
    by (auto simp add: results_loop_step bind_exn_def dest: bucket_rate_error split: sum.splits)
qed

lemma results_loop_total:
  "\<forall>b\<in>set agg. \<exists>rate. bucket_rate b = Inr rate \<Longrightarrow> \<exists>rs. results_loop agg acc = Inr rs"
proof (induction agg arbitrary: acc)
  case Nil
  then show ?case by simp
next
  case (Cons b items)
  then obtain rate where "bucket_rate b = Inr rate" by auto
  then show ?case using Cons by (simp add: results_loop_step bind_exn_def)
qed

lemma py_truediv_in_range:
  assumes "0 < b" "\<bar>a\<bar> < 2 ^ 1023 * b"
  shows "\<exists>rate. py_truediv a b = Inr rate"
proof -
  have "\<exists>r. round_quotient \<bar>a\<bar> \<bar>b\<bar> = Some r"
    using assms by (intro round_quotient_in_range) simp_all
  then show ?thesis using assms(1) by (auto simp add: py_truediv_def)
qed

lemma py_truediv_unit:
  assumes "0 \<le> a" "a \<le> b" "0 < b"
  shows "\<exists>x. py_truediv a b = Inr (Finite x) \<and> 0 \<le> x \<and> x \<le> 1"
proof -
  have "\<exists>r. round_quotient \<bar>a\<bar> \<bar>b\<bar> = Some r \<and> 0 \<le> r \<and> r \<le> 1"
    using assms by (intro round_quotient_unit) simp_all
  then show ?thesis using assms by (auto simp add: py_truediv_def)
qed

lemma entry_of_bucket_entry:
  "bucket_rate b = Inr rate \<Longrightarrow> entry_of_bucket b (bucket_entry b rate)"
  by (auto simp add: entry_of_bucket_def bucket_entry_def bucket_rate_def)

lemma overflow_reached:
  "1024 \<le> k \<Longrightarrow>
   bind_exn (from_json fs (status_payload (JStr a) (JStr v) (JFloat u) (JInt 1) (JInt 0)
               (JInt (2 ^ k))))
     (\<lambda>sd. bind_exn (add_status sd []) get_results) = Inl TooLargeForFloat"
  by (simp add: from_json_def from_json_try_def status_payload_def bind_exn_def add_status_def
      get_results_def py_truediv_overflow)

text \<open>
  Claim C2, as stated, fails: a payload that reports \<open>2\<^sup>1\<^sup>0\<^sup>2\<^sup>4\<close> successes for one request
  is accepted by \<open>from_json\<close> and ingested by \<open>add_status\<close>, and \<open>get_results\<close> then raises
  the \<open>OverflowError\<close> of the division \<open>succ / req\<close>.
\<close>

theorem get_results_overflow_counterexample:
  "bind_exn (from_json (\<lambda>s. None)
               (status_payload (JStr ''App1'') (JStr ''1.0'') (JFloat (Finite 100))
                  (JInt 1) (JInt 0) (JInt (2 ^ 1024))))
     (\<lambda>sd. bind_exn (add_status sd []) get_results) = Inl TooLargeForFloat"
  by (rule overflow_reached) simp

text \<open>
  Claim C2, amended. The only error \<open>get_results\<close> can raise is the \<open>OverflowError\<close> of the
  float division (never \<open>ZeroDivisionError\<close>); it raises none when every bucket with
  \<open>total_requests > 0\<close> has \<open>|total_success| < 2\<^sup>1\<^sup>0\<^sup>2\<^sup>3 * total_requests\<close>. When it returns, it
  returns one entry per bucket, in the order of the buckets, each with the key and the totals
  of its bucket; the entry of a bucket whose \<open>total_requests\<close> is 0 is present, with
  \<open>success_rate\<close> exactly 0.0.
\<close>

theorem get_results_guard:
  "(\<forall>e. get_results agg = Inl e \<longrightarrow> e = TooLargeForFloat) \<and>
   ((\<forall>b\<in>set agg. 0 < snd (snd b) \<longrightarrow> \<bar>fst (snd b)\<bar> < 2 ^ 1023 * snd (snd b)) \<longrightarrow>
      (\<exists>rs. get_results agg = Inr rs)) \<and>
   (\<forall>rs. get_results agg = Inr rs \<longrightarrow> list_all2 entry_of_bucket agg rs)"
proof (intro conjI allI impI)
  fix e assume "get_results agg = Inl e"
  then show "e = TooLargeForFloat" by (simp add: get_results_def results_loop_Inl)
next
  assume h: "\<forall>b\<in>set agg. 0 < snd (snd b) \<longrightarrow> \<bar>fst (snd b)\<bar> < 2 ^ 1023 * snd (snd b)"
  have "\<forall>b\<in>set agg. \<exists>rate. bucket_rate b = Inr rate"
  proof
    fix b assume "b \<in> set agg"
    then show "\<exists>rate. bucket_rate b = Inr rate"
      using h py_truediv_in_range[of "snd (snd b)" "fst (snd b)"]
      by (auto simp add: bucket_rate_def)
  qed
  then show "\<exists>rs. get_results agg = Inr rs"
    unfolding get_results_def by (rule results_loop_total)
next
  fix rs assume "get_results agg = Inr rs"
  then have "list_all2 (\<lambda>b e. \<exists>rate. bucket_rate b = Inr rate \<and> e = bucket_entry b rate) agg rs"
    using results_loop_Inr[of agg "[]" rs] by (simp add: get_results_def)
  then show "list_all2 entry_of_bucket agg rs"
    by (rule list_all2_mono) (auto simp add: entry_of_bucket_entry)
qed

theorem get_results_guard_witness:
  "get_results [((JStr ''App1'', JStr ''1.0''), (23, 30)), ((JStr ''App2'', JStr ''1.0''), (0, 0))] =
     Inr [[(''application'', JStr ''App1''), (''version'', JStr ''1.0''),
           (''total_requests'', JInt 30), (''total_success'', JInt 23),
           (''success_rate'', JFloat (Finite (6905519428634761 / 2 ^ 53)))],
          [(''application'', JStr ''App2''), (''version'', JStr ''1.0''),
           (''total_requests'', JInt 0), (''total_success'', JInt 0),
           (''success_rate'', JFloat (Finite 0))]]"
proof -
  define agg where
    "agg = [((JStr ''App1'', JStr ''1.0''), (23::int, 30::int)),
            ((JStr ''App2'', JStr ''1.0''), (0, 0))]"
  have r: "round_quotient 23 30 = Some (6905519428634761 / 2 ^ 53)"
    by (simp add: round_quotient_def float_exponent_def div_half_even_def compute_bitlen
        power_int_minus)
  have h: "\<forall>b\<in>set agg. 0 < snd (snd b) \<longrightarrow> \<bar>fst (snd b)\<bar> < 2 ^ 1023 * snd (snd b)"
    by (simp add: agg_def)
  from get_results_guard[of agg] h obtain rs where rs: "get_results agg = Inr rs"
    and l: "list_all2 entry_of_bucket agg rs"
    by blast
  from l obtain e1 e2 where "rs = [e1, e2]"
    and "entry_of_bucket ((JStr ''App1'', JStr ''1.0''), (23, 30)) e1"
    and "entry_of_bucket ((JStr ''App2'', JStr ''1.0''), (0, 0)) e2"
    by (auto simp add: agg_def list_all2_Cons1)
  then show ?thesis
    using rs r
    by (simp add: agg_def entry_of_bucket_def bucket_rate_def bucket_entry_def py_truediv_def
        split: sum.splits)
qed

lemma agg_get_mem: "agg_get k agg = Some v \<Longrightarrow> \<exists>k'. (k', v) \<in> set agg"
proof (induction agg)
  case Nil
  then show ?case by simp
next
  case (Cons b agg)
  show ?case
  proof (cases "key_eq k (fst b)")
    case True
    then have "b = (fst b, v)" using Cons.prems by (cases b) simp
    then show ?thesis by (metis list.set_intros(1))
  next
    case False
    then have "agg_get k agg = Some v" using Cons.prems by (cases b) simp
    then show ?thesis using Cons.IH by auto
  qed
qed

lemma agg_set_mem: "b \<in> set (agg_set k v agg) \<Longrightarrow> b \<in> set agg \<or> snd b = v"
  by (induction agg) (auto split: if_splits)

lemma add_status_sane:
  assumes "\<forall>b\<in>set agg. bucket_sane b"
    and "0 \<le> success_count s" "success_count s \<le> request_count s"
    and "add_status s agg = Inr agg'"
  shows "\<forall>b\<in>set agg'. bucket_sane b"
proof
  fix b assume b: "b \<in> set agg'"
  define ex where "ex = (case agg_get (application s, version s) agg of None \<Rightarrow> (0, 0) | Some v \<Rightarrow> v)"
  have ex: "0 \<le> fst ex \<and> fst ex \<le> snd ex"
  proof (cases "agg_get (application s, version s) agg")
    case None
    then show ?thesis by (simp add: ex_def)
  next
    case (Some v)
    then obtain k' where "(k', v) \<in> set agg" using agg_get_mem by blast
    then have "bucket_sane (k', v)" using assms(1) by blast
    then show ?thesis using Some by (simp add: ex_def bucket_sane_def)
  qed
  have "agg' = agg_set (application s, version s)
                 (fst ex + success_count s, snd ex + request_count s) agg"
    using assms(4) by (simp add: add_status_def Let_def ex_def split: if_splits)
  then have "b \<in> set agg \<or> snd b = (fst ex + success_count s, snd ex + request_count s)"
    using b agg_set_mem by blast
  then show "bucket_sane b"
    using assms(1,2,3) ex by (auto simp add: bucket_sane_def)
qed

lemma add_all_sane:
  assumes "\<forall>r\<in>set rs. 0 \<le> success_count r \<and> success_count r \<le> request_count r"
    and "\<forall>b\<in>set agg. bucket_sane b"
    and "add_all rs agg = Inr agg'"
  shows "\<forall>b\<in>set agg'. bucket_sane b"
  using assms
proof (induction rs arbitrary: agg)
  case Nil
  then show ?case by simp
next
  case (Cons s ss)
  from Cons.prems(3) obtain agg1 where a1: "add_status s agg = Inr agg1"
    and a2: "add_all ss agg1 = Inr agg'"
    by (auto simp add: bind_exn_def split: sum.splits)
  have "\<forall>b\<in>set agg1. bucket_sane b"
    using add_status_sane[OF Cons.prems(2) _ _ a1] Cons.prems(1) by simp
  then show ?case using Cons.IH[OF _ _ a2] Cons.prems(1) by simp
qed

lemma bucket_rate_sane:
  assumes "bucket_sane b"
  shows "\<exists>x. bucket_rate b = Inr (Finite x) \<and> 0 \<le> x \<and> x \<le> 1 \<and> (snd (snd b) = 0 \<longrightarrow> x = 0)"
proof (cases "0 < snd (snd b)")
  case True
  then show ?thesis
    using assms py_truediv_unit[of "fst (snd b)" "snd (snd b)"]
    by (auto simp add: bucket_rate_def bucket_sane_def)
next
  case False
  then show ?thesis by (simp add: bucket_rate_def)
qed

text \<open>
  Claim C6. When the aggregator was built by ingesting records that each have
  \<open>0 \<le> success_count \<le> request_count\<close>, \<open>get_results\<close> returns, and in every entry
  \<open>success_rate\<close> is a float between 0 and 1, and is exactly 0.0 when \<open>total_requests\<close> is 0.
\<close>

theorem success_rate_unit_interval:
  assumes "\<forall>r\<in>set rs. 0 \<le> success_count r \<and> success_count r \<le> request_count r"
    and "add_all rs [] = Inr agg"
  shows "\<exists>res. get_results agg = Inr res \<and> length res = length agg \<and>
           (\<forall>e\<in>set res. rate_in_unit e)"
proof -
  have sane: "\<forall>b\<in>set agg. bucket_sane b"
    using add_all_sane[OF assms(1) _ assms(2)] by simp
  then have "\<forall>b\<in>set agg. \<exists>rate. bucket_rate b = Inr rate"
    using bucket_rate_sane by blast
  then obtain res where res: "get_results agg = Inr res"
    unfolding get_results_def using results_loop_total by blast
  then have la: "list_all2 (\<lambda>b e. \<exists>rate. bucket_rate b = Inr rate \<and> e = bucket_entry b rate) agg res"
    using results_loop_Inr[of agg "[]" res] by (simp add: get_results_def)
  have "rate_in_unit e" if "e \<in> set res" for e
  proof -
    from that obtain i where i: "i < length res" "e = res ! i"
      by (auto simp add: in_set_conv_nth)
    then have "\<exists>rate. bucket_rate (agg ! i) = Inr rate \<and> e = bucket_entry (agg ! i) rate"
      using list_all2_nthD2[OF la i(1)] by simp
    moreover have "agg ! i \<in> set agg" using i(1) la by (simp add: list_all2_lengthD)
    ultimately obtain b rate where b: "b \<in> set agg" "bucket_rate b = Inr rate"
      "e = bucket_entry b rate"
      by blast
    then obtain x where "rate = Finite x" "0 \<le> x" "x \<le> 1" "snd (snd b) = 0 \<longrightarrow> x = 0"
      using bucket_rate_sane sane by fastforce
    then show ?thesis using b(3) by (simp add: rate_in_unit_def bucket_entry_def)
  qed
  then show ?thesis using res la by (auto simp add: list_all2_lengthD)
qed

theorem success_rate_unit_interval_witness:
  "0 \<le> success_count status1 \<and> success_count status1 \<le> request_count status1 \<and>
   0 \<le> success_count status2 \<and> success_count status2 \<le> request_count status2 \<and>
   0 \<le> success_count status_idle \<and> success_count status_idle \<le> request_count status_idle \<and>
   add_all [status1, status_idle, status2] [] =
     Inr [((JStr ''App1'', JStr ''1.0''), (23, 30)), ((JStr ''App2'', JStr ''1.0''), (0, 0))] \<and>
   (\<exists>res.
      get_results [((JStr ''App1'', JStr ''1.0''), (23, 30)), ((JStr ''App2'', JStr ''1.0''), (0, 0))] =
        Inr res \<and>
      length res = 2 \<and> list_all rate_in_unit res)"
proof -
  have h: "\<forall>r\<in>set [status1, status_idle, status2].
             0 \<le> success_count r \<and> success_count r \<le> request_count r"
    by (simp add: status1_def status2_def status_idle_def)
  have a: "add_all [status1, status_idle, status2] [] =
     Inr [((JStr ''App1'', JStr ''1.0''), (23, 30)), ((JStr ''App2'', JStr ''1.0''), (0, 0))]"
    by (simp add: add_status_def bind_exn_def key_eq_def status1_def status2_def status_idle_def)
  from success_rate_unit_interval[OF h a] obtain res where
    "get_results [((JStr ''App1'', JStr ''1.0''), (23, 30)), ((JStr ''App2'', JStr ''1.0''), (0, 0))] =
       Inr res"
    and "length res = 2" and "\<forall>e\<in>set res. rate_in_unit e"
    by auto
  then have "\<exists>res.
      get_results [((JStr ''App1'', JStr ''1.0''), (23, 30)), ((JStr ''App2'', JStr ''1.0''), (0, 0))] =
        Inr res \<and>
      length res = 2 \<and> list_all rate_in_unit res"
    by (auto simp add: list_all_iff)
  moreover have "0 \<le> success_count status1 \<and> success_count status1 \<le> request_count status1 \<and>
   0 \<le> success_count status2 \<and> success_count status2 \<le> request_count status2 \<and>
   0 \<le> success_count status_idle \<and> success_count status_idle \<le> request_count status_idle"
    using h by simp
  ultimately show ?thesis using a by blast
qed

section \<open>Properties of \<open>from_json\<close>\<close>

lemma dropWhile_keeps: "x \<in> set xs \<Longrightarrow> \<not> P x \<Longrightarrow> x \<in> set (dropWhile P xs)"
  by (induction xs) auto

lemma scan_digits_bad:
  "c \<in> set cs \<Longrightarrow> c \<noteq> CHR ''_'' \<Longrightarrow> \<not> is_digit c \<Longrightarrow> scan_digits prev acc n cs = None"
  by (induction cs arbitrary: prev acc n) auto

lemma int_of_str_dot:
  assumes "CHR ''.'' \<in> set s"
  shows "int_of_str s = None"
proof -
  define t where "t = dropWhile int_isspace s"
  define u where "u = (if t \<noteq> [] \<and> (hd t = CHR ''+'' \<or> hd t = CHR ''-'') then tl t else t)"
  define body where "body = rev (dropWhile int_isspace (rev u))"
  have ns: "\<not> int_isspace (CHR ''.'')" by (simp add: int_isspace_def)
  have t: "CHR ''.'' \<in> set t" unfolding t_def using assms ns by (rule dropWhile_keeps)
  have u: "CHR ''.'' \<in> set u"
  proof (cases t)
    case Nil
    then show ?thesis using t by simp
  next
    case (Cons c cs)
    then show ?thesis using t by (auto simp add: u_def)
  qed
  then have "CHR ''.'' \<in> set (rev u)" by simp
  then have "CHR ''.'' \<in> set (dropWhile int_isspace (rev u))" using ns by (rule dropWhile_keeps)
  then have "CHR ''.'' \<in> set body" by (simp add: body_def)
  then have "scan_digits None 0 0 body = None"
    by (rule scan_digits_bad) (simp_all add: is_digit_def)
  then show ?thesis
    by (simp add: int_of_str_def Let_def t_def[symmetric] u_def[symmetric] body_def[symmetric])
qed

lemma float_to_int_toward_zero:
  "\<bar>real_of_int (float_to_int x)\<bar> \<le> \<bar>x\<bar> \<and> \<bar>x - real_of_int (float_to_int x)\<bar> < 1"
  unfolding float_to_int_def by (cases "x < 0") (simp_all, linarith+)

text \<open>
  Claim C9. A count field given as a JSON number with a fraction is accepted by
  \<open>from_json\<close>, and the record holds the number with its fraction dropped, rounded toward
  zero; a count field given as a text that contains a decimal point makes \<open>from_json\<close>
  raise \<open>ValueError\<close>. This holds for each of the three count fields.
\<close>

theorem from_json_fraction_asymmetry:
  "from_json fs (status_payload a v (JFloat u) (JFloat (Finite x)) (JFloat (Finite y))
       (JFloat (Finite z))) =
     Inr \<lparr>application = a, version = v, uptime = u, request_count = float_to_int x,
          error_count = float_to_int y, success_count = float_to_int z\<rparr> \<and>
   \<bar>real_of_int (float_to_int x)\<bar> \<le> \<bar>x\<bar> \<and> \<bar>x - real_of_int (float_to_int x)\<bar> < 1 \<and>
   (CHR ''.'' \<in> set t \<longrightarrow>
      from_json fs (status_payload a v (JFloat u) (JStr t) ec sc) =
        Inl (InvalidStatus (BadLiteral t)) \<and>
      from_json fs (status_payload a v (JFloat u) (JInt n) (JStr t) sc) =
        Inl (InvalidStatus (BadLiteral t)) \<and>
      from_json fs (status_payload a v (JFloat u) (JInt n) (JInt m) (JStr t)) =
        Inl (InvalidStatus (BadLiteral t)))"
  using float_to_int_toward_zero[of x]
  by (simp add: from_json_def from_json_try_def status_payload_def bind_exn_def int_of_str_dot)

theorem from_json_fraction_asymmetry_witness:
  "from_json (\<lambda>s. None)
     (status_payload (JStr ''App1'') (JStr ''1.0'') (JFloat (Finite 100))
        (JFloat (Finite (6136154492292301 / 2 ^ 49))) (JFloat (Finite (5 / 2)))
        (JFloat (Finite (- (7 / 4))))) =
     Inr \<lparr>application = JStr ''App1'', version = JStr ''1.0'', uptime = Finite 100,
          request_count = 10, error_count = 2, success_count = - 1\<rparr> \<and>
   CHR ''.'' \<in> set ''10.9'' \<and>
   from_json (\<lambda>s. None)
     (status_payload (JStr ''App1'') (JStr ''1.0'') (JFloat (Finite 100))
        (JStr ''10.9'') (JInt 2) (JInt 8)) =
     Inl (InvalidStatus (BadLiteral ''10.9''))"
  using from_json_fraction_asymmetry[of "\<lambda>s. None" "JStr ''App1''" "JStr ''1.0''" "Finite 100"
      "6136154492292301 / 2 ^ 49" "5 / 2" "- (7 / 4)" "''10.9''" "JInt 2" "JInt 8" 0 0]
  by (simp add: float_to_int_def)






end
